theory Spec2Isabelle
  imports Main "HOL-Library.Word"
begin

section \<open>The world outside the two programs\<close>

text \<open>
  The repository holds two Go programs, each a single \<open>main\<close>: the scheduler (publisher)
  and the listener (subscriber). Both talk to a Pub/Sub service through the client
  library, read a yaml file, and wait for an interrupt or a timeout. Everything outside
  the programs is data here: a \<open>bus\<close> that holds the service's topics and subscriptions,
  an environment \<open>env\<close> that says how each external call answers, and a \<open>trace\<close> of the
  calls and log lines a run makes, in program order.
\<close>

type_synonym duration = "64 word"
  \<comment> \<open>\<open>time.Duration\<close>: an \<open>int64\<close> count of nanoseconds\<close>

datatype code = AlreadyExists | NotFound | Canceled | DeadlineExceeded | Unavailable | Unknown
  \<comment> \<open>the gRPC status codes that \<open>grpc.Code(err)\<close> tells apart here\<close>

datatype "context" = Background | RunCtx
  \<comment> \<open>\<open>context.Background()\<close>, or the \<open>ctx\<close> that the listener's \<open>main\<close> makes with
      \<open>WithCancel\<close> or \<open>WithTimeout\<close>\<close>

datatype shape = Bool | Int64 | Uint64 | Float64 | Slice | Map
  \<comment> \<open>the dynamic types, other than nil, string and int, that the yaml decoder stores in
      an \<open>interface{}\<close>\<close>

datatype policy = PNil | PString string | PInt "64 word" | PDuration duration | POther shape
  \<comment> \<open>the \<open>interface{}\<close> value of \<open>SubscriptionConfig.ExpirationPolicy\<close>\<close>

record subscription_config =
  cfg_Topic :: "string option"
  AckDeadline :: duration
  RetainAckedMessages :: bool
  RetentionDuration :: duration
  ExpirationPolicy :: policy

datatype arg = S string | C code | N nat | P policy | K subscription_config
  \<comment> \<open>an argument of a log line\<close>

datatype event =
    Usage
  | Print string
  | Logf string "arg list"
  | NewClient "context" string
  | CreateTopic "context" string
  | TopicStop string
  | TopicDelete "context" string
  | TopicPublish "context" string string
  | AddFunc string
  | CronStart
  | CronStop
  | ListTopics "context"
  | ListSubscriptions "context"
  | CreateSubscription "context" string subscription_config
  | SubscriptionDelete "context" string
  | GoReceive "context" string
  | Notify
  | WaitGroupWait
  | SignalStop

record bus =
  topics :: "string list"
  subscriptions :: "(string \<times> string) list"
  messages :: "(string \<times> string) list"

record world =
  bus :: bus
  trace :: "event list"
  ctx_err :: "code option"
  \<comment> \<open>\<open>ctx_err\<close>: \<open>ctx.Err()\<close> of the listener's run context, \<open>None\<close> while it is live\<close>

datatype 'a nxt = Item 'a | Fail code | Done
  \<comment> \<open>what one call of an iterator's \<open>Next\<close> returns; \<open>Done\<close> is \<open>iterator.Done\<close>\<close>

datatype 'c conf_source = Unreadable | Malformed | Decoded 'c
  \<comment> \<open>\<open>os.Open\<close> fails, \<open>dec.Decode\<close> fails, or the file decodes to a config\<close>

record 'c env =
  confFile :: "string \<Rightarrow> 'c conf_source"
  newClientErr :: "code option"
  createTopicErr :: "string \<Rightarrow> code option"
  deleteTopicErr :: "string \<Rightarrow> code option"
  publishErr :: "string \<Rightarrow> code option"
  cronParseErr :: "string \<Rightarrow> bool"
  fires :: "nat list"
  interrupt :: bool
  parseDuration :: "string \<Rightarrow> duration option"
  topicsNext :: "bus \<Rightarrow> nat \<Rightarrow> string nxt"
  subscriptionsNext :: "bus \<Rightarrow> nat \<Rightarrow> string nxt"
  createSubscriptionErr :: "string \<Rightarrow> code option"
  deleteSubscriptionErr :: "string \<Rightarrow> code option"
  receiveErr :: "string \<Rightarrow> code option"

record flags =
  help_flag :: bool
  conf_flag :: string
  duration_flag :: duration

definition emit :: "event \<Rightarrow> world \<Rightarrow> world" where
  "emit e w = w\<lparr>trace := trace w @ [e]\<rparr>"

definition logf :: "string \<Rightarrow> arg list \<Rightarrow> world \<Rightarrow> world" where
  "logf fmt args w = emit (Logf fmt args) w"

definition fatalf :: "string \<Rightarrow> arg list \<Rightarrow> world \<Rightarrow> nat \<times> world" where
  \<comment> \<open>\<open>log.Fatalf\<close>: the line is printed, then \<open>os.Exit(1)\<close>\<close>
  "fatalf fmt args w = (1, logf fmt args w)"

definition ctxErr :: "context \<Rightarrow> world \<Rightarrow> code option" where
  "ctxErr ctx w = (case ctx of Background \<Rightarrow> None | RunCtx \<Rightarrow> ctx_err w)"

fun first_err :: "code option list \<Rightarrow> code option" where
  "first_err [] = None"
| "first_err (Some e # _) = Some e"
| "first_err (None # es) = first_err es"

subsection \<open>The service's answers\<close>

text \<open>
  The Pub/Sub service and its client library are not part of the repository. A call
  fails when its context is already done, when the environment injects a failure for it,
  or when the service's own state refuses it (the name exists already, or does not
  exist); otherwise it changes the bus. Every call is recorded in the trace with the
  context it was given.
\<close>

definition pubsub_NewClient :: "'c env \<Rightarrow> context \<Rightarrow> string \<Rightarrow> world \<Rightarrow> code option \<times> world" where
  "pubsub_NewClient E ctx project w =
     (first_err [ctxErr ctx w, newClientErr E], emit (NewClient ctx project) w)"

definition client_CreateTopic :: "'c env \<Rightarrow> context \<Rightarrow> string \<Rightarrow> world \<Rightarrow> code option \<times> world" where
  "client_CreateTopic E ctx name w =
     (let w1 = emit (CreateTopic ctx name) w in
      case first_err [ctxErr ctx w, createTopicErr E name,
                      if name \<in> set (topics (bus w)) then Some AlreadyExists else None] of
        Some e \<Rightarrow> (Some e, w1)
      | None \<Rightarrow> (None, w1\<lparr>bus := (bus w1)\<lparr>topics := topics (bus w1) @ [name]\<rparr>\<rparr>))"

definition topic_Stop :: "string \<Rightarrow> world \<Rightarrow> world" where
  \<comment> \<open>\<open>t.Stop()\<close> ends the client's publishing for the topic; the service is not called\<close>
  "topic_Stop t w = emit (TopicStop t) w"

definition topic_Delete :: "'c env \<Rightarrow> context \<Rightarrow> string \<Rightarrow> world \<Rightarrow> code option \<times> world" where
  "topic_Delete E ctx t w =
     (let w1 = emit (TopicDelete ctx t) w in
      case first_err [ctxErr ctx w, deleteTopicErr E t,
                      if t \<in> set (topics (bus w)) then None else Some NotFound] of
        Some e \<Rightarrow> (Some e, w1)
      | None \<Rightarrow> (None, w1\<lparr>bus := (bus w1)\<lparr>topics := removeAll t (topics (bus w1))\<rparr>\<rparr>))"

definition client_CreateSubscription :: "'c env \<Rightarrow> context \<Rightarrow> string \<Rightarrow> subscription_config \<Rightarrow> world
    \<Rightarrow> code option \<times> world" where
  "client_CreateSubscription E ctx ident cfg w =
     (let w1 = emit (CreateSubscription ctx ident cfg) w in
      case first_err [ctxErr ctx w, createSubscriptionErr E ident,
                      if ident \<in> fst ` set (subscriptions (bus w)) then Some AlreadyExists else None,
                      case cfg_Topic cfg of
                        None \<Rightarrow> Some Unknown
                      | Some t \<Rightarrow> if t \<in> set (topics (bus w)) then None else Some NotFound] of
        Some e \<Rightarrow> (Some e, w1)
      | None \<Rightarrow>
          (None, w1\<lparr>bus := (bus w1)\<lparr>subscriptions :=
                        subscriptions (bus w1) @ [(ident, the (cfg_Topic cfg))]\<rparr>\<rparr>))"

definition subscription_Delete :: "'c env \<Rightarrow> context \<Rightarrow> string \<Rightarrow> world \<Rightarrow> code option \<times> world" where
  "subscription_Delete E ctx s w =
     (let w1 = emit (SubscriptionDelete ctx s) w in
      case first_err [ctxErr ctx w, deleteSubscriptionErr E s,
                      if s \<in> fst ` set (subscriptions (bus w)) then None else Some NotFound] of
        Some e \<Rightarrow> (Some e, w1)
      | None \<Rightarrow>
          (None, w1\<lparr>bus := (bus w1)\<lparr>subscriptions :=
                        filter (\<lambda>p. fst p \<noteq> s) (subscriptions (bus w1))\<rparr>\<rparr>))"

definition topic_Publish :: "'c env \<Rightarrow> context \<Rightarrow> string \<Rightarrow> string \<Rightarrow> world \<Rightarrow> (code + nat) \<times> world" where
  \<comment> \<open>\<open>t.Publish\<close> followed by \<open>res.Get\<close>: the message id the service assigns, or the error\<close>
  "topic_Publish E ctx t payload w =
     (let w1 = emit (TopicPublish ctx t payload) w in
      case first_err [ctxErr ctx w, publishErr E t,
                      if t \<in> set (topics (bus w)) then None else Some NotFound] of
        Some e \<Rightarrow> (Inl e, w1)
      | None \<Rightarrow> (Inr (Suc (length (messages (bus w1)))),
                  w1\<lparr>bus := (bus w1)\<lparr>messages := messages (bus w1) @ [(t, payload)]\<rparr>\<rparr>))"

section \<open>The scheduler\<close>

record target =
  Destination :: string
  target_Topic :: string

record job =
  Name :: string
  Description :: string
  Frequency :: string
  Timezone :: string
  Target :: target
  Payload :: string

record scheduler_config =
  sch_Project :: string
  Jobs :: "job list"

definition toLower_byte :: "char \<Rightarrow> char" where
  "toLower_byte c =
     (let n = (of_char c :: nat) in if 65 \<le> n \<and> n \<le> 90 then char_of (n + 32) else c)"

definition toLower :: "string \<Rightarrow> string" where
  \<comment> \<open>\<open>strings.ToLower\<close> on the bytes of the string. Only the ASCII letters are mapped:
      no rune outside ASCII lower-cases to a character of \<open>pub/sub\<close>, so the comparison
      below is the one the program makes\<close>
  "toLower s = map toLower_byte s"

definition cronspec_of :: "job \<Rightarrow> string" where
  "cronspec_of j =
     (if Timezone j \<noteq> [] then ''CRON_TZ='' @ Timezone j @ '' '' @ Frequency j
      else Frequency j)"

type_synonym entry = "string \<times> job \<times> string"
  \<comment> \<open>a cron entry: the spec, and the job and topic its function closes over\<close>

definition cron_AddFunc :: "'c env \<Rightarrow> string \<Rightarrow> job \<Rightarrow> string \<Rightarrow> entry list \<Rightarrow> world
    \<Rightarrow> (entry list) option \<times> world" where
  \<comment> \<open>\<open>c.AddFunc\<close>: the entry is added unless the parser rejects the spec\<close>
  "cron_AddFunc E spec j t c w =
     (let w1 = emit (AddFunc spec) w in
      if cronParseErr E spec then (None, w1) else (Some (c @ [(spec, j, t)]), w1))"

fun stop_topics :: "string list \<Rightarrow> world \<Rightarrow> world" where
  "stop_topics [] w = w"
| "stop_topics (t # ts) w = stop_topics ts (topic_Stop t w)"

fun jobs_loop :: "'c env \<Rightarrow> job list \<Rightarrow> string list \<Rightarrow> entry list \<Rightarrow> world
    \<Rightarrow> (nat \<times> world) + (string list \<times> entry list \<times> world)" where
  "jobs_loop E [] ts c w = Inr (ts, c, w)"
| "jobs_loop E (j # js) ts c w =
     (if toLower (Destination (Target j)) \<noteq> ''pub/sub'' then jobs_loop E js ts c w
      else
        let cronspec = cronspec_of j in
        case client_CreateTopic E Background (target_Topic (Target j)) w of
          (Some err, w1) \<Rightarrow>
            Inl (1, stop_topics ts
                      (logf ''failed to publish topic %q: %v'' [S (target_Topic (Target j)), C err] w1))
        | (None, w1) \<Rightarrow>
            (case cron_AddFunc E cronspec j (target_Topic (Target j)) c w1 of
               (None, w2) \<Rightarrow>
                 Inl (1, stop_topics ts (logf ''error in cronspec for %q: %v'' [S (Name j)] w2))
             | (Some c', w2) \<Rightarrow> jobs_loop E js (ts @ [target_Topic (Target j)]) c' w2))"

definition publish_action :: "'c env \<Rightarrow> job \<Rightarrow> string \<Rightarrow> world \<Rightarrow> world" where
  \<comment> \<open>the function registered with \<open>c.AddFunc\<close>\<close>
  "publish_action E j t w =
     (case topic_Publish E Background t (Payload j) w of
        (Inl err, w1) \<Rightarrow> logf ''failed to publish %q: %v'' [S (Name j), C err] w1
      | (Inr ident, w1) \<Rightarrow> logf ''published %q id=%s'' [S (Name j), N ident] w1)"

fun run_cron :: "'c env \<Rightarrow> entry list \<Rightarrow> nat list \<Rightarrow> world \<Rightarrow> world" where
  \<comment> \<open>between \<open>c.Start()\<close> and the end of the wait, the entries whose schedule comes due
      run their function; \<open>fires\<close> lists them by position\<close>
  "run_cron E c [] w = w"
| "run_cron E c (i # is) w =
     (if i < length c then run_cron E c is (publish_action E (fst (snd (c ! i))) (snd (snd (c ! i))) w)
      else run_cron E c is w)"

definition await :: "'c env \<Rightarrow> flags \<Rightarrow> bool" where
  \<comment> \<open>the \<open>select\<close> on the signal channel and the timer returns when an interrupt arrives
      or a timer was set; with neither it blocks for ever\<close>
  "await E fl = (if interrupt E then True else duration_flag fl \<noteq> 0)"

fun delete_topics :: "'c env \<Rightarrow> string list \<Rightarrow> world \<Rightarrow> (nat \<times> world) + world" where
  "delete_topics E [] w = Inr w"
| "delete_topics E (t # ts) w =
     (case topic_Delete E Background t (logf ''deleting %v'' [S t] w) of
        (Some err, w1) \<Rightarrow> Inl (fatalf ''failed to delete topic: %v'' [C err] w1)
      | (None, w1) \<Rightarrow> delete_topics E ts w1)"

definition scheduler_usage :: string where
  "scheduler_usage = ''scheduler is a Google Scheduler emulator.''"

definition scheduler_main :: "scheduler_config env \<Rightarrow> flags \<Rightarrow> world \<Rightarrow> (nat \<times> world) option" where
  \<comment> \<open>the exit status and the world at exit; \<open>None\<close> when the process never exits\<close>
  "scheduler_main E fl w0 =
     (if help_flag fl then Some (0, emit (Print scheduler_usage) (emit Usage w0))
      else if conf_flag fl = [] then Some (2, emit Usage w0)
      else
        case confFile E (conf_flag fl) of
          Unreadable \<Rightarrow> Some (fatalf ''failed to read schedule config: %v'' [] w0)
        | Malformed \<Rightarrow> Some (fatalf ''failed to parse schedule config: %v'' [] w0)
        | Decoded cfg \<Rightarrow>
            (case pubsub_NewClient E Background (sch_Project cfg) w0 of
               (Some err, w1) \<Rightarrow> Some (fatalf ''failed to create pubsub client: %v'' [C err] w1)
             | (None, w1) \<Rightarrow>
                 (case jobs_loop E (Jobs cfg) [] [] w1 of
                    Inl ex \<Rightarrow> Some ex
                  | Inr (ts, c, w2) \<Rightarrow>
                      let w3 = emit CronStart (emit Notify w2) in
                      if \<not> await E fl then None
                      else
                        let w4 = run_cron E c (fires E) w3;
                            w5 = emit CronStop (emit (Print ''cancelling'') w4)
                        in (case delete_topics E ts w5 of
                              Inl ex \<Rightarrow> Some ex
                            | Inr w6 \<Rightarrow> Some (0, emit SignalStop w6)))))"

section \<open>The listener\<close>

record subscription =
  sub_Topic :: string
  ID :: string
  Config :: subscription_config

record listener_config =
  lis_Project :: string
  Subscriptions :: "subscription list"
  DefaultConfig :: subscription_config

definition empty_config :: subscription_config where
  \<comment> \<open>\<open>pubsub.SubscriptionConfig{}\<close>\<close>
  "empty_config = \<lparr>cfg_Topic = None, AckDeadline = 0, RetainAckedMessages = False,
                    RetentionDuration = 0, ExpirationPolicy = PNil\<rparr>"

definition isEmptyConfig :: "subscription_config \<Rightarrow> bool" where
  "isEmptyConfig cfg = (cfg = empty_config)"

definition Second :: duration where
  "Second = 1000000000"

definition normalize_policy :: "'c env \<Rightarrow> policy \<Rightarrow> (string \<times> arg list) + policy" where
  \<comment> \<open>the type switch on \<open>subs.Config.ExpirationPolicy\<close>: the new value of the field, or
      the line that \<open>log.Fatalf\<close> prints\<close>
  "normalize_policy E exp =
     (case exp of
        PNil \<Rightarrow> Inr PNil
      | PString s \<Rightarrow>
          (case parseDuration E s of
             None \<Rightarrow> Inl (''failed to parse subscription config: %v'', [S s])
           | Some d \<Rightarrow> Inr (PDuration d))
      | PInt n \<Rightarrow> Inr (PDuration (n * Second))
      | _ \<Rightarrow> Inl (''failed to parse subscription config: %v is not valid expiration policy'', [P exp]))"

fun normalize_loop :: "'c env \<Rightarrow> subscription list \<Rightarrow> world \<Rightarrow> (nat \<times> world) + subscription list" where
  "normalize_loop E [] w = Inr []"
| "normalize_loop E (subs # rest) w =
     (case normalize_policy E (ExpirationPolicy (Config subs)) of
        Inl (fmt, args) \<Rightarrow> Inl (fatalf fmt args w)
      | Inr p \<Rightarrow>
          (case normalize_loop E rest w of
             Inl ex \<Rightarrow> Inl ex
           | Inr rest' \<Rightarrow> Inr (subs\<lparr>Config := (Config subs)\<lparr>ExpirationPolicy := p\<rparr>\<rparr> # rest')))"

partial_function (option) topics_loop :: "(nat \<Rightarrow> string nxt) \<Rightarrow> bool \<Rightarrow> nat \<Rightarrow> subscription list
    \<Rightarrow> world \<Rightarrow> ((nat \<times> world) + (subscription list \<times> world)) option" where
  "topics_loop topit all k subs w =
     (case topit k of
        Done \<Rightarrow> Some (Inr (subs, w))
      | Fail err \<Rightarrow> Some (Inl (fatalf ''error during topic enumeration: %v'' [C err] w))
      | Item t \<Rightarrow>
          (let w1 = logf ''%v\<newline>'' [S t] w in
           if all
           then topics_loop topit all (Suc k)
                  (subs @ [\<lparr>sub_Topic = t, ID = t, Config = empty_config\<rparr>])
                  (logf ''adding %v\<newline>'' [S t] w1)
           else topics_loop topit all (Suc k) subs w1))"

partial_function (option) delete_loop :: "'c env \<Rightarrow> (nat \<Rightarrow> string nxt) \<Rightarrow> nat \<Rightarrow> world \<Rightarrow> world option" where
  "delete_loop E it k w =
     (case it k of
        Done \<Rightarrow> Some w
      | Fail err \<Rightarrow>
          delete_loop E it (Suc k) (logf ''error during subscription clean up: %v'' [C err] w)
      | Item s \<Rightarrow>
          (case subscription_Delete E Background s w of
             (Some err, w1) \<Rightarrow>
               delete_loop E it (Suc k) (logf ''failed to delete subscription %q: %v'' [S s, C err] w1)
           | (None, w1) \<Rightarrow> delete_loop E it (Suc k) w1))"

declare topics_loop.simps [code]

declare delete_loop.simps [code]

definition deleteAllSubscriptions :: "'c env \<Rightarrow> world \<Rightarrow> world option" where
  \<comment> \<open>\<open>None\<close> when the iterator never returns \<open>iterator.Done\<close>\<close>
  "deleteAllSubscriptions E w =
     delete_loop E (subscriptionsNext E (bus w)) 0 (emit (ListSubscriptions Background) w)"

definition subConfig_of :: "listener_config \<Rightarrow> subscription \<Rightarrow> subscription_config" where
  \<comment> \<open>the \<open>subConfig\<close> that \<open>main\<close> passes to \<open>CreateSubscription\<close>\<close>
  "subConfig_of cfg sub =
     (if isEmptyConfig (Config sub) then DefaultConfig cfg else Config sub)
       \<lparr>cfg_Topic := Some (sub_Topic sub)\<rparr>"

fun subscribe_loop :: "'c env \<Rightarrow> listener_config \<Rightarrow> subscription list \<Rightarrow> subscription list
    \<Rightarrow> world \<Rightarrow> ((nat \<times> world) + (subscription list \<times> world)) option" where
  \<comment> \<open>\<open>wg\<close> holds the subscriptions whose receive loop was started (\<open>wg.Add(1); go ...\<close>)\<close>
  "subscribe_loop E cfg [] wg w = Some (Inr (wg, w))"
| "subscribe_loop E cfg (sub # rest) wg w =
     (let w1 = logf ''subscribing to %q as %q\<newline>'' [S (sub_Topic sub), S (ID sub)] w;
          w2 = (if isEmptyConfig (Config sub)
                then logf ''using default config: %v'' [K (DefaultConfig cfg)] w1 else w1)
      in case client_CreateSubscription E RunCtx (ID sub) (subConfig_of cfg sub) w2 of
           (Some err, w3) \<Rightarrow>
             if err = AlreadyExists
             then subscribe_loop E cfg rest wg
                    (logf ''subscription %q already exists'' [S (sub_Topic sub)] w3)
             else
               (case deleteAllSubscriptions E
                       (logf ''failed to create subscription %q %q: %#v (%v)''
                          [S (sub_Topic sub), S (ID sub), C err, C err] w3) of
                  None \<Rightarrow> None
                | Some w4 \<Rightarrow> Some (Inl (1, w4)))
         | (None, w3) \<Rightarrow>
             subscribe_loop E cfg rest (wg @ [sub]) (emit (GoReceive RunCtx (ID sub)) w3))"

fun receive_errors :: "'c env \<Rightarrow> subscription list \<Rightarrow> world \<Rightarrow> world" where
  \<comment> \<open>a receive loop that ends with an error other than \<open>context.Canceled\<close> logs it\<close>
  "receive_errors E [] w = w"
| "receive_errors E (sub # rest) w =
     (case receiveErr E (ID sub) of
        None \<Rightarrow> receive_errors E rest w
      | Some err \<Rightarrow>
          receive_errors E rest
            (if err \<noteq> Canceled
             then logf ''failed to receive for %q %q: %v'' [S (sub_Topic sub), S (ID sub), C err] w
             else w))"

definition wait_group :: "'c env \<Rightarrow> flags \<Rightarrow> subscription list \<Rightarrow> world \<Rightarrow> world option" where
  \<comment> \<open>\<open>wg.Wait()\<close> returns once every receive loop has returned: each has failed by
      itself, or the run context is done, by the interrupt (\<open>cancel()\<close>) or by the timeout.
      With loops still receiving, no interrupt and no timeout it blocks for ever\<close>
  "wait_group E fl wg w =
     (let w1 = receive_errors E wg (emit WaitGroupWait w) in
      if list_all (\<lambda>sub. receiveErr E (ID sub) \<noteq> None) wg then Some w1
      else if interrupt E then Some (w1\<lparr>ctx_err := Some Canceled\<rparr>)
      else if duration_flag fl \<noteq> 0 then Some (w1\<lparr>ctx_err := Some DeadlineExceeded\<rparr>)
      else None)"

definition listener_usage :: string where
  "listener_usage = ''listener is a Google Scheduler listener for testing a scheduler.''"

definition listener_main :: "listener_config env \<Rightarrow> flags \<Rightarrow> world \<Rightarrow> (nat \<times> world) option" where
  "listener_main E fl w0 =
     (if help_flag fl then Some (0, emit (Print listener_usage) (emit Usage w0))
      else if conf_flag fl = [] then Some (2, emit Usage w0)
      else
        case confFile E (conf_flag fl) of
          Unreadable \<Rightarrow> Some (fatalf ''failed to read schedule config: %v'' [] w0)
        | Malformed \<Rightarrow> Some (fatalf ''failed to parse schedule config: %v'' [] w0)
        | Decoded cfg0 \<Rightarrow>
            (case normalize_loop E (Subscriptions cfg0) w0 of
               Inl ex \<Rightarrow> Some ex
             | Inr subs0 \<Rightarrow>
                 (case pubsub_NewClient E RunCtx (lis_Project cfg0) (w0\<lparr>ctx_err := None\<rparr>) of
                    (Some err, w1) \<Rightarrow>
                      Some (fatalf ''failed to create pubsub client: %v'' [C err] w1)
                  | (None, w1) \<Rightarrow>
                      (let w2 = emit (ListTopics RunCtx) (logf ''available topics:'' [] w1) in
                       case topics_loop (topicsNext E (bus w2)) (subs0 = []) 0 subs0 w2 of
                         None \<Rightarrow> None
                       | Some (Inl ex) \<Rightarrow> Some ex
                       | Some (Inr (subs, w3)) \<Rightarrow>
                           if subs = [] then Some (0, logf ''no available subscriptions'' [] w3)
                           else
                             (case subscribe_loop E (cfg0\<lparr>Subscriptions := subs\<rparr>) subs [] w3 of
                                None \<Rightarrow> None
                              | Some (Inl ex) \<Rightarrow> Some ex
                              | Some (Inr (wg, w4)) \<Rightarrow>
                                  (case wait_group E fl wg (emit Notify w4) of
                                     None \<Rightarrow> None
                                   | Some w5 \<Rightarrow>
                                       (case deleteAllSubscriptions E (emit (Print ''cancelling'') w5) of
                                          None \<Rightarrow> None
                                        | Some w6 \<Rightarrow> Some (0, emit SignalStop w6))))))))"

section \<open>Finite enumerations and an environment without failures\<close>

text \<open>
  An iterator \<open>yields\<close> a list of results when its calls return them in order and the
  next call returns \<open>iterator.Done\<close>. \<open>delete_step\<close> is what one round of the loop of
  \<open>deleteAllSubscriptions\<close> does with the result of \<open>it.Next()\<close>.
\<close>

definition yields :: "(nat \<Rightarrow> 'a nxt) \<Rightarrow> 'a nxt list \<Rightarrow> bool" where
  "yields it rs = (map it [0..<length rs] = rs \<and> Done \<notin> set rs \<and> it (length rs) = Done)"

definition delete_step :: "'c env \<Rightarrow> string nxt \<Rightarrow> world \<Rightarrow> world" where
  "delete_step E r w =
     (case r of
        Done \<Rightarrow> w
      | Fail err \<Rightarrow> logf ''error during subscription clean up: %v'' [C err] w
      | Item s \<Rightarrow>
          (case subscription_Delete E Background s w of
             (Some err, w1) \<Rightarrow> logf ''failed to delete subscription %q: %v'' [S s, C err] w1
           | (None, w1) \<Rightarrow> w1))"

text \<open>
  The environment of the examples: the service answers from its state and lists what it
  holds, no call fails, an interrupt arrives, the duration parser knows \<open>1h\<close> and the
  cron parser rejects the two-field spec \<open>every minute\<close>.
\<close>

definition emulator :: "(string \<Rightarrow> 'c conf_source) \<Rightarrow> 'c env" where
  "emulator f =
     \<lparr>confFile = f, newClientErr = None, createTopicErr = (\<lambda>_. None),
      deleteTopicErr = (\<lambda>_. None), publishErr = (\<lambda>_. None),
      cronParseErr = (\<lambda>spec. spec = ''every minute''), fires = [], interrupt = True,
      parseDuration = (\<lambda>s. if s = ''1h'' then Some 3600000000000 else None),
      topicsNext = (\<lambda>b k. if k < length (topics b) then Item (topics b ! k) else Done),
      subscriptionsNext =
        (\<lambda>b k. if k < length (subscriptions b) then Item (fst (subscriptions b ! k)) else Done),
      createSubscriptionErr = (\<lambda>_. None), deleteSubscriptionErr = (\<lambda>_. None),
      receiveErr = (\<lambda>_. None)\<rparr>"

definition world0 :: "string list \<Rightarrow> (string \<times> string) list \<Rightarrow> world" where
  "world0 ts ss =
     \<lparr>bus = \<lparr>topics = ts, subscriptions = ss, messages = []\<rparr>, trace = [], ctx_err = None\<rparr>"

definition flags0 :: flags where
  "flags0 = \<lparr>help_flag = False, conf_flag = ''conf.yaml'', duration_flag = 0\<rparr>"

definition sub_of :: "string \<Rightarrow> string \<Rightarrow> policy \<Rightarrow> subscription" where
  "sub_of t i p = \<lparr>sub_Topic = t, ID = i, Config = empty_config\<lparr>ExpirationPolicy := p\<rparr>\<rparr>"

definition listener_conf :: "subscription list \<Rightarrow> listener_config" where
  "listener_conf subs =
     \<lparr>lis_Project = ''testing'', Subscriptions = subs, DefaultConfig = empty_config\<rparr>"

definition job_of :: "string \<Rightarrow> string \<Rightarrow> string \<Rightarrow> string \<Rightarrow> job" where
  "job_of n dest t freq =
     \<lparr>Name = n, Description = [], Frequency = freq, Timezone = [],
      Target = \<lparr>Destination = dest, target_Topic = t\<rparr>, Payload = ''hello cron!''\<rparr>"

definition scheduler_conf :: "job list \<Rightarrow> scheduler_config" where
  "scheduler_conf js = \<lparr>sch_Project = ''testing'', Jobs = js\<rparr>"

subsection \<open>Reading a run\<close>

definition is_pubsub :: "job \<Rightarrow> bool" where
  \<comment> \<open>the test that the job loop of the scheduler makes before it goes on with a job\<close>
  "is_pubsub j = (toLower (Destination (Target j)) = ''pub/sub'')"

fun created_topics :: "event list \<Rightarrow> string list" where
  "created_topics [] = []"
| "created_topics (CreateTopic ctx t # es) = t # created_topics es"
| "created_topics (e # es) = created_topics es"

fun added_funcs :: "event list \<Rightarrow> string list" where
  "added_funcs [] = []"
| "added_funcs (AddFunc spec # es) = spec # added_funcs es"
| "added_funcs (e # es) = added_funcs es"

fun startup_event :: "event \<Rightarrow> bool" where
  \<comment> \<open>the events of the scheduler's job loop\<close>
  "startup_event (CreateTopic ctx t) = True"
| "startup_event (AddFunc spec) = True"
| "startup_event (Logf fmt args) = True"
| "startup_event (TopicStop t) = True"
| "startup_event e = False"

fun items :: "'a nxt list \<Rightarrow> 'a list" where
  "items [] = []"
| "items (Item x # rs) = x # items rs"
| "items (r # rs) = items rs"

fun delete_calls :: "event list \<Rightarrow> string list" where
  "delete_calls [] = []"
| "delete_calls (SubscriptionDelete ctx s # es) = s # delete_calls es"
| "delete_calls (e # es) = delete_calls es"

fun under_background :: "event \<Rightarrow> bool" where
  "under_background (NewClient ctx p) = (ctx = Background)"
| "under_background (CreateTopic ctx t) = (ctx = Background)"
| "under_background (TopicDelete ctx t) = (ctx = Background)"
| "under_background (TopicPublish ctx t p) = (ctx = Background)"
| "under_background (ListTopics ctx) = (ctx = Background)"
| "under_background (ListSubscriptions ctx) = (ctx = Background)"
| "under_background (CreateSubscription ctx s cfg) = (ctx = Background)"
| "under_background (SubscriptionDelete ctx s) = (ctx = Background)"
| "under_background (GoReceive ctx s) = (ctx = Background)"
| "under_background e = True"

definition synthesized :: "string \<Rightarrow> subscription" where
  "synthesized t = \<lparr>sub_Topic = t, ID = t, Config = empty_config\<rparr>"

fun create_calls :: "event list \<Rightarrow> (string \<times> subscription_config) list" where
  "create_calls [] = []"
| "create_calls (CreateSubscription ctx s cfg # es) = (s, cfg) # create_calls es"
| "create_calls (e # es) = create_calls es"

fun cron_ran :: "event \<Rightarrow> bool" where
  \<comment> \<open>the events that only a started cron engine gives\<close>
  "cron_ran CronStart = True"
| "cron_ran (TopicPublish ctx t p) = True"
| "cron_ran e = False"

section \<open>Properties of the loops\<close>

lemma delete_loop_step:
  "it k \<noteq> Done \<Longrightarrow> delete_loop E it k w = delete_loop E it (Suc k) (delete_step E (it k) w)"
  by (subst delete_loop.simps) (simp add: delete_step_def split: nxt.splits prod.splits option.splits)

lemma delete_loop_Done: "it k = Done \<Longrightarrow> delete_loop E it k w = Some w"
  by (subst delete_loop.simps) simp

lemma delete_loop_fold:
  assumes "it n = Done" and "\<forall>j. k \<le> j \<and> j < n \<longrightarrow> it j \<noteq> Done" and "k \<le> n"
  shows "delete_loop E it k w = Some (fold (delete_step E) (map it [k..<n]) w)"
  using assms
proof (induction "n - k" arbitrary: k w)
  case 0
  then show ?case by (simp add: delete_loop_Done)
next
  case (Suc d)
  then have lt: "k < n" and nd: "it k \<noteq> Done" by auto
  have "delete_loop E it (Suc k) (delete_step E (it k) w)
        = Some (fold (delete_step E) (map it [Suc k..<n]) (delete_step E (it k) w))"
    using Suc by (intro Suc.hyps(1)) auto
  then show ?case using lt nd by (simp add: delete_loop_step upt_conv_Cons)
qed

lemma yields_nth: "yields it rs \<Longrightarrow> j < length rs \<Longrightarrow> it j = rs ! j"
  unfolding yields_def by (metis add_0 nth_map_upt minus_nat.diff_0 nth_upt)

lemma deleteAll_fold:
  assumes "yields (subscriptionsNext E (bus w)) rs"
  shows "deleteAllSubscriptions E w
         = Some (fold (delete_step E) rs (emit (ListSubscriptions Background) w))"
proof -
  let ?it = "subscriptionsNext E (bus w)"
  have a: "?it (length rs) = Done" using assms by (simp add: yields_def)
  have b: "\<forall>j. 0 \<le> j \<and> j < length rs \<longrightarrow> ?it j \<noteq> Done"
    using assms yields_nth[OF assms] by (metis nth_mem yields_def)
  have c: "map ?it [0..<length rs] = rs" using assms by (simp add: yields_def)
  show ?thesis
    unfolding deleteAllSubscriptions_def using delete_loop_fold[OF a b, of E] c by simp
qed

lemma normalize_loop_fatal:
  "sub \<in> set subs \<Longrightarrow> isl (normalize_policy E (ExpirationPolicy (Config sub)))
   \<Longrightarrow> \<exists>fmt args. normalize_loop E subs w = Inl (fatalf fmt args w)"
proof (induction subs)
  case Nil
  then show ?case by simp
next
  case (Cons a subs)
  show ?case
  proof (cases "normalize_policy E (ExpirationPolicy (Config a))")
    case (Inl m)
    then show ?thesis by (cases m) auto
  next
    case (Inr p)
    with Cons.prems have "sub \<in> set subs" by auto
    from Cons.IH[OF this Cons.prems(2)] obtain fmt args
      where "normalize_loop E subs w = Inl (fatalf fmt args w)" by blast
    with Inr show ?thesis by (simp, blast)
  qed
qed

section \<open>The listener: normalizing the expiration policy\<close>



section \<open>The scheduler: the job loop\<close>

lemma toLower_Pub_Sub: "toLower ''Pub/Sub'' = ''pub/sub''"
  by code_simp

lemma toLower_PUB_SUB: "toLower ''PUB/SUB'' = ''pub/sub''"
  by code_simp

lemma toLower_pub_sub: "toLower ''pub/sub'' = ''pub/sub''"
  by code_simp

lemma toLower_HTTP: "toLower ''HTTP'' = ''http''"
  by code_simp

lemmas toLower_examples = toLower_Pub_Sub toLower_PUB_SUB toLower_pub_sub toLower_HTTP

lemmas eval_defs = emulator_def world0_def flags0_def job_of_def scheduler_conf_def
  scheduler_main_def pubsub_NewClient_def client_CreateTopic_def cron_AddFunc_def
  topic_Stop_def topic_Delete_def topic_Publish_def publish_action_def await_def
  emit_def logf_def fatalf_def ctxErr_def cronspec_of_def Let_def

lemma first_err_None [simp]: "first_err es = None \<longleftrightarrow> (\<forall>e \<in> set es. e = None)"
  by (induction es rule: first_err.induct) auto

lemma created_topics_append [simp]:
  "created_topics (xs @ ys) = created_topics xs @ created_topics ys"
  by (induction xs rule: created_topics.induct) auto

lemma added_funcs_append [simp]:
  "added_funcs (xs @ ys) = added_funcs xs @ added_funcs ys"
  by (induction xs rule: added_funcs.induct) auto

lemma jobs_loop_skips:
  "jobs_loop E jobs ts c w = jobs_loop E (filter is_pubsub jobs) ts c w"
proof (induction jobs arbitrary: ts c w)
  case Nil
  then show ?case by simp
next
  case (Cons j jobs)
  show ?case
  proof (cases "is_pubsub j")
    case True
    then show ?thesis
      using Cons.IH by (simp add: is_pubsub_def split: prod.splits option.splits)
  next
    case False
    then show ?thesis using Cons.IH by (simp add: is_pubsub_def)
  qed
qed

lemma CreateTopic_ok:
  "client_CreateTopic E ctx name w = (None, w1) \<Longrightarrow>
     trace w1 = trace w @ [CreateTopic ctx name] \<and>
     topics (bus w1) = topics (bus w) @ [name] \<and> name \<notin> set (topics (bus w))"
  by (auto simp: client_CreateTopic_def emit_def Let_def split: option.splits if_splits)

lemma CreateTopic_world:
  "client_CreateTopic E ctx name w = (r, w1) \<Longrightarrow>
     trace w1 = trace w @ [CreateTopic ctx name] \<and> ctx_err w1 = ctx_err w \<and>
     (\<exists>new. topics (bus w1) = topics (bus w) @ new) \<and>
     subscriptions (bus w1) = subscriptions (bus w) \<and> messages (bus w1) = messages (bus w)"
  by (auto simp: client_CreateTopic_def emit_def Let_def split: option.splits if_splits)

lemma AddFunc_ok:
  "cron_AddFunc E spec j t c w = (Some c', w1) \<Longrightarrow>
     c' = c @ [(spec, j, t)] \<and> w1 = emit (AddFunc spec) w \<and> \<not> cronParseErr E spec"
  by (auto simp: cron_AddFunc_def Let_def split: if_splits)

lemma AddFunc_world:
  "cron_AddFunc E spec j t c w = (r, w1) \<Longrightarrow> w1 = emit (AddFunc spec) w"
  by (auto simp: cron_AddFunc_def Let_def split: if_splits)

lemma stop_topics_world:
  "stop_topics ts w = w\<lparr>trace := trace w @ map TopicStop ts\<rparr>"
  by (induction ts arbitrary: w) (auto simp: topic_Stop_def emit_def)

lemma jobs_loop_ok:
  "jobs_loop E jobs ts c w = Inr (ts', c', w') \<Longrightarrow>
     ts' = ts @ map (\<lambda>j. target_Topic (Target j)) (filter is_pubsub jobs) \<and>
     c' = c @ map (\<lambda>j. (cronspec_of j, j, target_Topic (Target j))) (filter is_pubsub jobs) \<and>
     topics (bus w') = topics (bus w) @ map (\<lambda>j. target_Topic (Target j)) (filter is_pubsub jobs) \<and>
     created_topics (trace w') =
       created_topics (trace w) @ map (\<lambda>j. target_Topic (Target j)) (filter is_pubsub jobs) \<and>
     added_funcs (trace w') = added_funcs (trace w) @ map cronspec_of (filter is_pubsub jobs) \<and>
     (\<forall>j \<in> set (filter is_pubsub jobs). \<not> cronParseErr E (cronspec_of j))"
proof (induction jobs arbitrary: ts c w)
  case Nil
  then show ?case by simp
next
  case (Cons j jobs)
  show ?case
  proof (cases "is_pubsub j")
    case False
    with Cons.prems have "jobs_loop E jobs ts c w = Inr (ts', c', w')"
      by (simp add: is_pubsub_def)
    from Cons.IH[OF this] False show ?thesis by simp
  next
    case True
    let ?t = "target_Topic (Target j)"
    from True Cons.prems obtain w1 where ct: "client_CreateTopic E Background ?t w = (None, w1)"
      by (cases "client_CreateTopic E Background ?t w")
         (auto simp: is_pubsub_def split: option.splits)
    from True Cons.prems ct obtain c1 w2
      where af: "cron_AddFunc E (cronspec_of j) j ?t c w1 = (Some c1, w2)"
      by (cases "cron_AddFunc E (cronspec_of j) j ?t c w1")
         (auto simp: is_pubsub_def split: option.splits)
    from True Cons.prems ct af have rest: "jobs_loop E jobs (ts @ [?t]) c1 w2 = Inr (ts', c', w')"
      by (simp add: is_pubsub_def)
    note ih = Cons.IH[OF rest]
    note a = CreateTopic_ok[OF ct] and b = AddFunc_ok[OF af]
    from ih a b True show ?thesis by (simp add: emit_def)
  qed
qed

lemma jobs_loop_exit:
  "jobs_loop E jobs ts c w = Inl (n, w') \<Longrightarrow>
     n = 1 \<and>
     (\<exists>evs. trace w' = trace w @ evs \<and> list_all startup_event evs) \<and>
     (\<exists>new. topics (bus w') = topics (bus w) @ new)"
proof (induction jobs arbitrary: ts c w)
  case Nil
  then show ?case by simp
next
  case (Cons j jobs)
  let ?t = "target_Topic (Target j)"
  show ?case
  proof (cases "is_pubsub j")
    case False
    with Cons.prems have "jobs_loop E jobs ts c w = Inl (n, w')" by (simp add: is_pubsub_def)
    from Cons.IH[OF this] show ?thesis .
  next
    case True
    obtain r w1 where ct: "client_CreateTopic E Background ?t w = (r, w1)" by fastforce
    note cw = CreateTopic_world[OF ct]
    show ?thesis
    proof (cases r)
      case (Some err)
      with True Cons.prems ct
      have "n = 1" and
        "w' = stop_topics ts (logf ''failed to publish topic %q: %v'' [S ?t, C err] w1)"
        by (auto simp: is_pubsub_def)
      with cw show ?thesis
        by (auto simp: stop_topics_world logf_def emit_def list_all_iff)
    next
      case None
      obtain r2 w2 where af: "cron_AddFunc E (cronspec_of j) j ?t c w1 = (r2, w2)" by fastforce
      note aw = AddFunc_world[OF af]
      show ?thesis
      proof (cases r2)
        case None2: None
        with None True Cons.prems ct af
        have "n = 1" and
          "w' = stop_topics ts (logf ''error in cronspec for %q: %v'' [S (Name j)] w2)"
          by (auto simp: is_pubsub_def)
        with cw aw show ?thesis
          by (auto simp: stop_topics_world logf_def emit_def list_all_iff)
      next
        case (Some c1)
        with None True Cons.prems ct af
        have "jobs_loop E jobs (ts @ [?t]) c1 w2 = Inl (n, w')" by (simp add: is_pubsub_def)
        from Cons.IH[OF this] cw aw show ?thesis
          by (auto simp: emit_def list_all_iff)
      qed
    qed
  qed
qed

lemma jobs_loop_bad_spec:
  assumes "j \<in> set jobs" "is_pubsub j" "cronParseErr E (cronspec_of j)"
  shows "\<exists>w'. jobs_loop E jobs ts c w = Inl (1, w')"
proof (cases "jobs_loop E jobs ts c w")
  case (Inl ex)
  obtain n w' where "ex = (n, w')" by (cases ex)
  with Inl jobs_loop_exit[of E jobs ts c w n w'] show ?thesis by auto
next
  case (Inr r)
  obtain ts' c' w' where "r = (ts', c', w')" by (cases r)
  with Inr jobs_loop_ok[of E jobs ts c w ts' c' w'] assms show ?thesis by auto
qed

text \<open>
  C7. A job whose destination is not Pub/Sub leaves no trace in the job loop: the loop
  runs as if the job were not in the list. When the loop completes on \<open>N\<close> jobs of which
  \<open>M\<close> are not Pub/Sub jobs, it has created \<open>N - M\<close> topics, one for each Pub/Sub job in
  order, and registered \<open>N - M\<close> cron entries, one for each of those jobs.
\<close>

theorem startup_one_topic_per_pubsub_job:
  "jobs_loop E jobs ts c w = jobs_loop E (filter is_pubsub jobs) ts c w \<and>
   (jobs_loop E jobs [] [] w = Inr (ts', c', w') \<longrightarrow>
      length ts' = length jobs - length (filter (\<lambda>j. \<not> is_pubsub j) jobs) \<and>
      length c' = length jobs - length (filter (\<lambda>j. \<not> is_pubsub j) jobs) \<and>
      ts' = map (\<lambda>j. target_Topic (Target j)) (filter is_pubsub jobs) \<and>
      c' = map (\<lambda>j. (cronspec_of j, j, target_Topic (Target j))) (filter is_pubsub jobs) \<and>
      topics (bus w') = topics (bus w) @ ts' \<and>
      created_topics (trace w') = created_topics (trace w) @ ts' \<and>
      added_funcs (trace w') = added_funcs (trace w) @ map cronspec_of (filter is_pubsub jobs))"
proof -
  have len: "length (filter is_pubsub jobs) = length jobs - length (filter (\<lambda>j. \<not> is_pubsub j) jobs)"
    using sum_length_filter_compl[of is_pubsub jobs] by simp
  have "jobs_loop E jobs [] [] w = Inr (ts', c', w') \<Longrightarrow> ?thesis"
    using jobs_loop_ok[of E jobs "[]" "[]" w ts' c' w'] len jobs_loop_skips[of E jobs ts c w]
    by simp
  then show ?thesis using jobs_loop_skips[of E jobs ts c w] by blast
qed

theorem startup_one_topic_per_pubsub_job_witness:
  "\<exists>ts' c' w'.
     jobs_loop (emulator (\<lambda>_. Unreadable) :: scheduler_config env)
       [job_of ''a'' ''Pub/Sub'' ''t1'' ''* * * * *'', job_of ''h'' ''HTTP'' ''t9'' ''0 0 * * *'',
        job_of ''b'' ''PUB/SUB'' ''t2'' ''*/5 * * * *''] [] [] (world0 [] [])
       = Inr (ts', c', w') \<and>
     length ts' = 3 - 1 \<and> length c' = 3 - 1 \<and> ts' = [''t1'', ''t2''] \<and>
     topics (bus w') = [''t1'', ''t2''] \<and> created_topics (trace w') = [''t1'', ''t2''] \<and>
     added_funcs (trace w') = [''* * * * *'', ''*/5 * * * *'']"
proof -
  let ?E = "emulator (\<lambda>_. Unreadable) :: scheduler_config env"
  let ?jobs = "[job_of ''a'' ''Pub/Sub'' ''t1'' ''* * * * *'', job_of ''h'' ''HTTP'' ''t9'' ''0 0 * * *'',
        job_of ''b'' ''PUB/SUB'' ''t2'' ''*/5 * * * *'']"
  obtain r where r: "jobs_loop ?E ?jobs [] [] (world0 [] []) = r" by simp
  then obtain ts' c' w' where run: "jobs_loop ?E ?jobs [] [] (world0 [] []) = Inr (ts', c', w')"
    by (simp add: eval_defs toLower_examples)
  have p: "filter is_pubsub ?jobs
           = [job_of ''a'' ''Pub/Sub'' ''t1'' ''* * * * *'', job_of ''b'' ''PUB/SUB'' ''t2'' ''*/5 * * * *'']"
    by (simp add: is_pubsub_def job_of_def toLower_examples)
  have q: "filter (\<lambda>j. \<not> is_pubsub j) ?jobs = [job_of ''h'' ''HTTP'' ''t9'' ''0 0 * * *'']"
    by (simp add: is_pubsub_def job_of_def toLower_examples)
  from startup_one_topic_per_pubsub_job[of ?E ?jobs "[]" "[]" "world0 [] []" ts' c' w'] run
  have "length ts' = 3 - 1 \<and> length c' = 3 - 1 \<and> ts' = [''t1'', ''t2''] \<and>
     topics (bus w') = [''t1'', ''t2''] \<and> created_topics (trace w') = [''t1'', ''t2''] \<and>
     added_funcs (trace w') = [''* * * * *'', ''*/5 * * * *'']"
    unfolding p q by (simp add: job_of_def cronspec_of_def world0_def)
  with run show ?thesis by blast
qed

text \<open>
  Two Pub/Sub jobs that name the same topic: the second \<open>CreateTopic\<close> answers that the
  topic exists, the scheduler exits with status 1, and one topic has been created where
  the two jobs would give two.
\<close>

theorem duplicate_topic_aborts_startup:
  "scheduler_main
     (emulator (\<lambda>_. Decoded (scheduler_conf
        [job_of ''a'' ''Pub/Sub'' ''t'' ''* * * * *'', job_of ''b'' ''Pub/Sub'' ''t'' ''0 * * * *''])))
     flags0 (world0 [] [])
   = Some (1,
       \<lparr>bus = \<lparr>topics = [''t''], subscriptions = [], messages = []\<rparr>,
        trace =
          [NewClient Background ''testing'',
           CreateTopic Background ''t'',
           AddFunc ''* * * * *'',
           CreateTopic Background ''t'',
           Logf ''failed to publish topic %q: %v'' [S ''t'', C AlreadyExists],
           TopicStop ''t''],
        ctx_err = None\<rparr>)
   \<and> length [job_of ''a'' ''Pub/Sub'' ''t'' ''* * * * *'', job_of ''b'' ''Pub/Sub'' ''t'' ''0 * * * *'']
       - length (filter (\<lambda>j. \<not> is_pubsub j)
           [job_of ''a'' ''Pub/Sub'' ''t'' ''* * * * *'', job_of ''b'' ''Pub/Sub'' ''t'' ''0 * * * *''])
     = 2"
  by (simp add: eval_defs is_pubsub_def toLower_examples)

section \<open>The scheduler: failures\<close>

text \<open>
  C3. Three Pub/Sub jobs, and the service refuses the second topic. The scheduler logs
  the failure, calls \<open>Stop\<close> on the first topic and exits with status 1; the cron engine
  was never started and nothing was published. The first topic is not deleted: no
  \<open>Delete\<close> call is made, and the topic is still on the bus at exit.
\<close>

theorem creation_failure_stops_but_keeps_topic:
  "scheduler_main
     ((emulator (\<lambda>_. Decoded (scheduler_conf
        [job_of ''a'' ''Pub/Sub'' ''t1'' ''* * * * *'',
         job_of ''b'' ''Pub/Sub'' ''t2'' ''* * * * *'',
         job_of ''c'' ''Pub/Sub'' ''t3'' ''* * * * *''])))
        \<lparr>createTopicErr := (\<lambda>t. if t = ''t2'' then Some Unavailable else None)\<rparr>)
     flags0 (world0 [] [])
   = Some (1,
       \<lparr>bus = \<lparr>topics = [''t1''], subscriptions = [], messages = []\<rparr>,
        trace =
          [NewClient Background ''testing'',
           CreateTopic Background ''t1'',
           AddFunc ''* * * * *'',
           CreateTopic Background ''t2'',
           Logf ''failed to publish topic %q: %v'' [S ''t2'', C Unavailable],
           TopicStop ''t1''],
        ctx_err = None\<rparr>)"
  by (simp add: eval_defs toLower_examples)

text \<open>
  C2. Two Pub/Sub jobs, and at shutdown the service refuses to delete the first topic.
  The scheduler prints the failure with \<open>log.Fatalf\<close>, which exits with status 1: no
  \<open>Delete\<close> call is made for the second topic, and both topics are still on the bus.
\<close>

theorem delete_failure_ends_scheduler_teardown:
  "scheduler_main
     ((emulator (\<lambda>_. Decoded (scheduler_conf
        [job_of ''a'' ''Pub/Sub'' ''t1'' ''* * * * *'',
         job_of ''b'' ''Pub/Sub'' ''t2'' ''* * * * *''])))
        \<lparr>deleteTopicErr := (\<lambda>t. if t = ''t1'' then Some Unavailable else None)\<rparr>)
     flags0 (world0 [] [])
   = Some (1,
       \<lparr>bus = \<lparr>topics = [''t1'', ''t2''], subscriptions = [], messages = []\<rparr>,
        trace =
          [NewClient Background ''testing'',
           CreateTopic Background ''t1'',
           AddFunc ''* * * * *'',
           CreateTopic Background ''t2'',
           AddFunc ''* * * * *'',
           Notify, CronStart, Print ''cancelling'', CronStop,
           Logf ''deleting %v'' [S ''t1''],
           TopicDelete Background ''t1'',
           Logf ''failed to delete topic: %v'' [C Unavailable]],
        ctx_err = None\<rparr>)"
  by (simp add: eval_defs toLower_examples)


section \<open>Configuration errors\<close>

lemma startup_not_ran: "startup_event e \<Longrightarrow> \<not> cron_ran e"
  by (cases e) auto

lemma scheduler_bad_spec:
  assumes "\<not> help_flag fl" "conf_flag fl \<noteq> []" "confFile E (conf_flag fl) = Decoded cfg"
    and "j \<in> set (Jobs cfg)" "is_pubsub j" "cronParseErr E (cronspec_of j)"
  shows "\<exists>w' evs. scheduler_main E fl w = Some (1, w') \<and> trace w' = trace w @ evs \<and>
           \<not> list_ex cron_ran evs"
proof (cases "first_err [ctxErr Background w, newClientErr E]")
  case (Some err)
  with assms(1-3) have "scheduler_main E fl w
      = Some (1, logf ''failed to create pubsub client: %v'' [C err]
                   (emit (NewClient Background (sch_Project cfg)) w))"
    by (simp add: scheduler_main_def pubsub_NewClient_def fatalf_def)
  then show ?thesis by (simp add: logf_def emit_def)
next
  case None
  let ?w1 = "emit (NewClient Background (sch_Project cfg)) w"
  from jobs_loop_bad_spec[OF assms(4-6)] obtain w'
    where jl: "jobs_loop E (Jobs cfg) [] [] ?w1 = Inl (1, w')" by blast
  from jobs_loop_exit[OF jl] obtain evs
    where evs: "trace w' = trace ?w1 @ evs" "list_all startup_event evs" by blast
  from None assms(1-3) jl have "scheduler_main E fl w = Some (1, w')"
    by (simp add: scheduler_main_def pubsub_NewClient_def del: first_err_None)
  moreover from evs have "trace w' = trace w @ (NewClient Background (sch_Project cfg) # evs)"
    by (simp add: emit_def)
  moreover from evs(2) have "\<not> list_ex cron_ran (NewClient Background (sch_Project cfg) # evs)"
    by (auto simp: list_all_iff list_ex_iff dest: startup_not_ran)
  ultimately show ?thesis by blast
qed





section \<open>The listener: the deletion pass\<close>

lemmas listener_eval = emulator_def world0_def flags0_def listener_conf_def sub_of_def
  listener_main_def pubsub_NewClient_def client_CreateSubscription_def subscription_Delete_def
  deleteAllSubscriptions_def subConfig_of_def isEmptyConfig_def empty_config_def
  normalize_policy_def wait_group_def Second_def
  emit_def logf_def fatalf_def ctxErr_def Let_def topics_loop.simps delete_loop.simps

lemma delete_calls_append [simp]:
  "delete_calls (xs @ ys) = delete_calls xs @ delete_calls ys"
  by (induction xs rule: delete_calls.induct) auto

lemma subscription_Delete_world:
  "subscription_Delete E Background s w = (r, w1) \<Longrightarrow>
     trace w1 = trace w @ [SubscriptionDelete Background s] \<and> ctx_err w1 = ctx_err w \<and>
     topics (bus w1) = topics (bus w) \<and>
     set (subscriptions (bus w1)) \<subseteq> set (subscriptions (bus w)) \<and>
     (deleteSubscriptionErr E s = None \<longrightarrow> s \<notin> fst ` set (subscriptions (bus w1)))"
  by (auto simp: subscription_Delete_def emit_def ctxErr_def Let_def
           split: option.splits if_splits)

lemma delete_step_cases:
  obtains "r = Done" "delete_step E r w = w"
  | err where "r = Fail err" "delete_step E r w = logf ''error during subscription clean up: %v'' [C err] w"
  | s e w1 where "r = Item s" "subscription_Delete E Background s w = (e, w1)"
      "delete_step E r w = w1 \<or> (\<exists>fmt args. delete_step E r w = logf fmt args w1)"
proof (cases r)
  case (Item s)
  obtain e w1 where d: "subscription_Delete E Background s w = (e, w1)" by fastforce
  with Item have "delete_step E r w = w1 \<or> (\<exists>fmt args. delete_step E r w = logf fmt args w1)"
    by (cases e) (auto simp: delete_step_def)
  with Item d that(3) show ?thesis by blast
qed (auto simp: delete_step_def intro: that)

lemma delete_step_trace:
  "\<exists>evs. trace (delete_step E r w) = trace w @ evs \<and> list_all under_background evs \<and>
          delete_calls evs = items [r]"
proof (cases rule: delete_step_cases[of r E w])
  case (3 s e w1)
  from subscription_Delete_world[OF 3(2)] 3(1,3) show ?thesis
    by (auto simp: logf_def emit_def)
qed (auto simp: logf_def emit_def)

lemma delete_step_ctx: "ctx_err (delete_step E r w) = ctx_err w"
proof (cases rule: delete_step_cases[of r E w])
  case (3 s e w1)
  from subscription_Delete_world[OF 3(2)] 3(1,3) show ?thesis
    by (auto simp: logf_def emit_def)
qed (auto simp: logf_def emit_def)

lemma delete_step_subs:
  "set (subscriptions (bus (delete_step E r w))) \<subseteq> set (subscriptions (bus w))"
proof (cases rule: delete_step_cases[of r E w])
  case (3 s e w1)
  from subscription_Delete_world[OF 3(2)] 3(1,3) show ?thesis
    by (auto simp: logf_def emit_def)
qed (auto simp: logf_def emit_def)

lemma delete_step_gone:
  assumes "deleteSubscriptionErr E s = None"
  shows "s \<notin> fst ` set (subscriptions (bus (delete_step E (Item s) w)))"
proof (cases rule: delete_step_cases[of "Item s" E w])
  case (3 s' e w1)
  from subscription_Delete_world[OF 3(2)] 3(1,3) assms show ?thesis
    by (auto simp: logf_def emit_def)
qed auto

lemma items_append [simp]: "items (xs @ ys) = items xs @ items ys"
  by (induction xs rule: items.induct) auto

lemma delete_fold_trace:
  "\<exists>evs. trace (fold (delete_step E) rs w) = trace w @ evs \<and> list_all under_background evs \<and>
          delete_calls evs = items rs"
proof (induction rs arbitrary: w)
  case Nil
  then show ?case by simp
next
  case (Cons r rs)
  from delete_step_trace[of E r w] obtain e1
    where e1: "trace (delete_step E r w) = trace w @ e1" "list_all under_background e1"
      "delete_calls e1 = items [r]" by blast
  from Cons[of "delete_step E r w"] obtain e2
    where e2: "trace (fold (delete_step E) rs (delete_step E r w)) = trace (delete_step E r w) @ e2"
      "list_all under_background e2" "delete_calls e2 = items rs" by blast
  have "items (r # rs) = items [r] @ items rs" using items_append[of "[r]" rs] by simp
  with e1 e2 have "trace (fold (delete_step E) (r # rs) w) = trace w @ (e1 @ e2) \<and>
      list_all under_background (e1 @ e2) \<and> delete_calls (e1 @ e2) = items (r # rs)"
    by simp
  then show ?case by blast
qed

lemma delete_fold_ctx: "ctx_err (fold (delete_step E) rs w) = ctx_err w"
  by (induction rs arbitrary: w) (auto simp: delete_step_ctx)

lemma delete_fold_subs:
  "set (subscriptions (bus (fold (delete_step E) rs w))) \<subseteq> set (subscriptions (bus w))"
proof (induction rs arbitrary: w)
  case Nil
  then show ?case by simp
next
  case (Cons r rs)
  from Cons[of "delete_step E r w"] delete_step_subs[of E r w] show ?case by auto
qed

lemma delete_fold_gone:
  "s \<in> set (items rs) \<Longrightarrow> deleteSubscriptionErr E s = None \<Longrightarrow>
     s \<notin> fst ` set (subscriptions (bus (fold (delete_step E) rs w)))"
proof (induction rs arbitrary: w)
  case Nil
  then show ?case by simp
next
  case (Cons r rs)
  show ?case
  proof (cases "s \<in> set (items rs)")
    case True
    from Cons.IH[OF True Cons.prems(2)] show ?thesis by simp
  next
    case False
    with Cons.prems(1) have r: "r = Item s" by (cases r) auto
    from delete_step_gone[OF Cons.prems(2)] r
    have "s \<notin> fst ` set (subscriptions (bus (delete_step E r w)))" by simp
    moreover have "set (subscriptions (bus (fold (delete_step E) rs (delete_step E r w))))
        \<subseteq> set (subscriptions (bus (delete_step E r w)))"
      by (rule delete_fold_subs)
    ultimately show ?thesis by auto
  qed
qed

lemma delete_step_any_ctx:
  "delete_step E r (w\<lparr>ctx_err := c\<rparr>) = (delete_step E r w)\<lparr>ctx_err := c\<rparr>"
  by (cases r)
     (auto simp: delete_step_def subscription_Delete_def logf_def emit_def ctxErr_def Let_def
           split: option.splits)

lemma delete_fold_any_ctx:
  "fold (delete_step E) rs (w\<lparr>ctx_err := c\<rparr>) = (fold (delete_step E) rs w)\<lparr>ctx_err := c\<rparr>"
  by (induction rs arbitrary: w) (auto simp: delete_step_any_ctx)






section \<open>The listener: startup\<close>

lemma create_calls_append [simp]:
  "create_calls (xs @ ys) = create_calls xs @ create_calls ys"
  by (induction xs rule: create_calls.induct) auto

lemma topics_loop_items:
  assumes "\<forall>j<length ts. it (k + j) = Item (ts ! j)" and "it (k + length ts) = Done"
  shows "\<exists>w'. topics_loop it all k subs w
             = Some (Inr (subs @ (if all then map synthesized ts else []), w')) \<and>
           bus w' = bus w \<and> ctx_err w' = ctx_err w \<and>
           create_calls (trace w') = create_calls (trace w)"
  using assms
proof (induction ts arbitrary: k subs w)
  case Nil
  then show ?case by (subst topics_loop.simps) simp
next
  case (Cons t ts)
  from Cons.prems(1) have k: "it k = Item t" by force
  have a: "\<forall>j<length ts. it (Suc k + j) = Item (ts ! j)"
  proof (intro allI impI)
    fix j assume "j < length ts"
    then have "Suc j < length (t # ts)" by simp
    with Cons.prems(1) have "it (k + Suc j) = Item ((t # ts) ! Suc j)" by blast
    then show "it (Suc k + j) = Item (ts ! j)" by simp
  qed
  have b: "it (Suc k + length ts) = Done" using Cons.prems(2) by simp
  show ?case
  proof (cases all)
    case True
    let ?w1 = "logf ''adding %v\<newline>'' [S t] (logf ''%v\<newline>'' [S t] w)"
    from Cons.IH[OF a b, of "subs @ [\<lparr>sub_Topic = t, ID = t, Config = empty_config\<rparr>]" ?w1] True
    obtain w' where
      "topics_loop it all (Suc k) (subs @ [\<lparr>sub_Topic = t, ID = t, Config = empty_config\<rparr>]) ?w1
         = Some (Inr ((subs @ [\<lparr>sub_Topic = t, ID = t, Config = empty_config\<rparr>]) @ map synthesized ts, w'))"
      "bus w' = bus ?w1" "ctx_err w' = ctx_err ?w1"
      "create_calls (trace w') = create_calls (trace ?w1)" by auto
    with k True show ?thesis
      by (subst topics_loop.simps) (simp add: synthesized_def logf_def emit_def)
  next
    case False
    let ?w1 = "logf ''%v\<newline>'' [S t] w"
    from Cons.IH[OF a b, of subs ?w1] False
    obtain w' where
      "topics_loop it all (Suc k) subs ?w1 = Some (Inr (subs, w'))"
      "bus w' = bus ?w1" "ctx_err w' = ctx_err ?w1"
      "create_calls (trace w') = create_calls (trace ?w1)" by auto
    with k False show ?thesis
      by (subst topics_loop.simps) (simp add: logf_def emit_def)
  qed
qed

lemma yields_items:
  assumes "yields it (map Item ts)"
  shows "\<forall>j<length ts. it (0 + j) = Item (ts ! j)" and "it (0 + length ts) = Done"
  using assms yields_nth[OF assms] by (auto simp: yields_def)

lemma CreateSubscription_world:
  "client_CreateSubscription E ctx ident cfg w = (r, w1) \<Longrightarrow>
     trace w1 = trace w @ [CreateSubscription ctx ident cfg]"
  by (auto simp: client_CreateSubscription_def emit_def Let_def split: option.splits)

lemma delete_loop_creates:
  assumes "delete_loop E it k w = Some w'"
  shows "create_calls (trace w') = create_calls (trace w)"
proof (rule delete_loop.raw_induct
         [where P = "\<lambda>E it k w w'. create_calls (trace w') = create_calls (trace w)", OF _ assms],
       goal_cases)
  case (1 dl E it k w w')
  show ?case
  proof (cases "it k")
    case (Item s)
    obtain e w1 where d: "subscription_Delete E Background s w = (e, w1)" by fastforce
    then have t: "trace w1 = trace w @ [SubscriptionDelete Background s]"
      by (auto simp: subscription_Delete_def emit_def Let_def split: option.splits)
    show ?thesis
    proof (cases e)
      case None
      with 1(2) Item d have "dl E it (Suc k) w1 = Some w'" by simp
      from 1(1)[OF this] t show ?thesis by simp
    next
      case (Some err)
      with 1(2) Item d
      have "dl E it (Suc k) (logf ''failed to delete subscription %q: %v'' [S s, C err] w1) = Some w'"
        by simp
      from 1(1)[OF this] t show ?thesis by (simp add: logf_def emit_def)
    qed
  next
    case (Fail err)
    with 1(2) have "dl E it (Suc k) (logf ''error during subscription clean up: %v'' [C err] w) = Some w'"
      by simp
    from 1(1)[OF this] show ?thesis by (simp add: logf_def emit_def)
  next
    case Done
    with 1(2) show ?thesis by simp
  qed
qed

lemma deleteAll_creates:
  "deleteAllSubscriptions E w = Some w' \<Longrightarrow> create_calls (trace w') = create_calls (trace w)"
  unfolding deleteAllSubscriptions_def by (drule delete_loop_creates) (simp add: emit_def)

lemma subscribe_loop_calls:
  "subscribe_loop E cfg subs wg w = Some r \<Longrightarrow>
     (case r of
        Inl (n, w') \<Rightarrow> n = 1
      | Inr (wg', w') \<Rightarrow>
          create_calls (trace w')
            = create_calls (trace w) @ map (\<lambda>sub. (ID sub, subConfig_of cfg sub)) subs)"
proof (induction subs arbitrary: wg w)
  case Nil
  then show ?case by auto
next
  case (Cons sub rest)
  let ?w1 = "logf ''subscribing to %q as %q\<newline>'' [S (sub_Topic sub), S (ID sub)] w"
  let ?w2 = "if isEmptyConfig (Config sub)
             then logf ''using default config: %v'' [K (DefaultConfig cfg)] ?w1 else ?w1"
  have t2: "create_calls (trace ?w2) = create_calls (trace w)" by (simp add: logf_def emit_def)
  obtain e w3 where c: "client_CreateSubscription E RunCtx (ID sub) (subConfig_of cfg sub) ?w2 = (e, w3)"
    by fastforce
  from CreateSubscription_world[OF c] t2
  have t3: "create_calls (trace w3) = create_calls (trace w) @ [(ID sub, subConfig_of cfg sub)]"
    by simp
  show ?case
  proof (cases e)
    case None
    with Cons.prems c
    have "subscribe_loop E cfg rest (wg @ [sub]) (emit (GoReceive RunCtx (ID sub)) w3) = Some r"
      by (simp add: Let_def)
    from Cons.IH[OF this] t3 show ?thesis
      by (auto simp: emit_def split: sum.splits prod.splits)
  next
    case (Some err)
    show ?thesis
    proof (cases "err = AlreadyExists")
      case True
      with Some Cons.prems c
      have "subscribe_loop E cfg rest wg
              (logf ''subscription %q already exists'' [S (sub_Topic sub)] w3) = Some r"
        by (simp add: Let_def)
      from Cons.IH[OF this] t3 show ?thesis
        by (auto simp: logf_def emit_def split: sum.splits prod.splits)
    next
      case False
      with Some Cons.prems c show ?thesis
        by (auto simp: Let_def split: option.splits)
    qed
  qed
qed

lemma receive_errors_creates:
  "create_calls (trace (receive_errors E wg w)) = create_calls (trace w)"
  by (induction wg arbitrary: w) (auto simp: logf_def emit_def split: option.splits)

lemma wait_group_creates:
  "wait_group E fl wg w = Some w' \<Longrightarrow> create_calls (trace w') = create_calls (trace w)"
  by (auto simp: wait_group_def Let_def receive_errors_creates emit_def split: if_splits)

text \<open>
  C9. With no subscription configured and a topic listing that ends at once, the listener
  makes the client, asks for the topics, logs \<open>no available subscriptions\<close> and exits
  with status 0: no subscription is created, no receive loop is started, and the bus is as
  it was.
\<close>

theorem no_subscriptions_no_topics:
  assumes "\<not> help_flag fl" and "conf_flag fl \<noteq> []"
    and "confFile E (conf_flag fl) = Decoded cfg" and "Subscriptions cfg = []"
    and "newClientErr E = None" and "topicsNext E (bus w) 0 = Done"
  shows "listener_main E fl w
         = Some (0, w\<lparr>trace := trace w @
                         [NewClient RunCtx (lis_Project cfg), Logf ''available topics:'' [],
                          ListTopics RunCtx, Logf ''no available subscriptions'' []],
                      ctx_err := None\<rparr>)"
  using assms
  by (simp add: listener_main_def pubsub_NewClient_def ctxErr_def emit_def logf_def
        topics_loop.simps)

theorem no_subscriptions_no_topics_witness:
  "listener_main (emulator (\<lambda>_. Decoded (listener_conf []))) flags0 (world0 [] [(''z'', ''gone'')])
     = Some (0,
         \<lparr>bus = \<lparr>topics = [], subscriptions = [(''z'', ''gone'')], messages = []\<rparr>,
          trace = [NewClient RunCtx ''testing'', Logf ''available topics:'' [],
                   ListTopics RunCtx, Logf ''no available subscriptions'' []],
          ctx_err = None\<rparr>)"
  using no_subscriptions_no_topics
          [of flags0 "emulator (\<lambda>_. Decoded (listener_conf []))" "listener_conf []"
              "world0 [] [(''z'', ''gone'')]"]
  by (simp add: emulator_def flags0_def listener_conf_def world0_def)

text \<open>
  C8. With no subscription configured, and a topic listing that returns the topics \<open>ts\<close>
  and ends, the topic loop hands on one subscription for each topic of \<open>ts\<close>, in order,
  with the topic's id as topic and as subscription id and an empty config; the config
  passed to \<open>CreateSubscription\<close> for it is the default config with the topic set; and
  a run that ends with status 0 has called \<open>CreateSubscription\<close> exactly once for each topic
  of \<open>ts\<close>, with the topic's id and that config.
\<close>

theorem all_topics_get_default_subscriptions:
  assumes "\<not> help_flag fl" and "conf_flag fl \<noteq> []"
    and "confFile E (conf_flag fl) = Decoded cfg" and "Subscriptions cfg = []"
    and "newClientErr E = None" and "yields (topicsNext E (bus w)) (map Item ts)"
  shows "(\<exists>w3. topics_loop (topicsNext E (bus w)) (Subscriptions cfg = []) 0 (Subscriptions cfg)
                  (emit (ListTopics RunCtx) (logf ''available topics:'' []
                     (emit (NewClient RunCtx (lis_Project cfg)) (w\<lparr>ctx_err := None\<rparr>))))
                = Some (Inr (map synthesized ts, w3)))
       \<and> (\<forall>t. ID (synthesized t) = t \<and> sub_Topic (synthesized t) = t \<and>
              subConfig_of cfg (synthesized t) = (DefaultConfig cfg)\<lparr>cfg_Topic := Some t\<rparr>)
       \<and> (\<forall>w'. listener_main E fl w = Some (0, w') \<longrightarrow>
              create_calls (trace w')
                = create_calls (trace w)
                  @ map (\<lambda>t. (t, (DefaultConfig cfg)\<lparr>cfg_Topic := Some t\<rparr>)) ts)"
proof -
  let ?w1 = "emit (NewClient RunCtx (lis_Project cfg)) (w\<lparr>ctx_err := None\<rparr>)"
  let ?w2 = "emit (ListTopics RunCtx) (logf ''available topics:'' [] ?w1)"
  have bw: "bus ?w2 = bus w" by (simp add: emit_def logf_def)
  have tw: "create_calls (trace ?w2) = create_calls (trace w)" by (simp add: emit_def logf_def)
  note y = yields_items[OF assms(6)]
  from topics_loop_items[OF y, of True "[]" ?w2] obtain w3 where
    tl: "topics_loop (topicsNext E (bus w)) True 0 [] ?w2 = Some (Inr (map synthesized ts, w3))"
    and w3: "bus w3 = bus ?w2" "create_calls (trace w3) = create_calls (trace ?w2)" by auto
  have sc: "subConfig_of cfg (synthesized t) = (DefaultConfig cfg)\<lparr>cfg_Topic := Some t\<rparr>" for t
    by (simp add: subConfig_of_def synthesized_def isEmptyConfig_def)
  have main: "create_calls (trace w')
                = create_calls (trace w)
                  @ map (\<lambda>t. (t, (DefaultConfig cfg)\<lparr>cfg_Topic := Some t\<rparr>)) ts"
    if run: "listener_main E fl w = Some (0, w')" for w'
  proof (cases "ts = []")
    case True
    with run assms(1-5) tl bw have "w' = logf ''no available subscriptions'' [] w3"
      by (simp add: listener_main_def pubsub_NewClient_def ctxErr_def)
    with True w3 tw show ?thesis by (simp add: logf_def emit_def)
  next
    case False
    let ?cfg = "cfg\<lparr>Subscriptions := map synthesized ts\<rparr>"
    from False run assms(1-5) tl bw
    have r0: "(case subscribe_loop E ?cfg (map synthesized ts) [] w3 of
                None \<Rightarrow> None
              | Some (Inl ex) \<Rightarrow> Some ex
              | Some (Inr (wg, w4)) \<Rightarrow>
                  (case wait_group E fl wg (emit Notify w4) of
                     None \<Rightarrow> None
                   | Some w5 \<Rightarrow>
                       (case deleteAllSubscriptions E (emit (Print ''cancelling'') w5) of
                          None \<Rightarrow> None
                        | Some w6 \<Rightarrow> Some (0, emit SignalStop w6)))) = Some (0, w')"
      by (simp add: listener_main_def pubsub_NewClient_def ctxErr_def)
    then obtain r where sl: "subscribe_loop E ?cfg (map synthesized ts) [] w3 = Some r"
      by (cases "subscribe_loop E ?cfg (map synthesized ts) [] w3") auto
    note calls = subscribe_loop_calls[OF sl]
    show ?thesis
    proof (cases r)
      case (Inl ex)
      with calls r0 sl show ?thesis by (cases ex) auto
    next
      case (Inr p)
      obtain wg w4 where p: "p = (wg, w4)" by (cases p)
      from Inr p calls have c4: "create_calls (trace w4)
            = create_calls (trace w3) @ map (\<lambda>sub. (ID sub, subConfig_of ?cfg sub)) (map synthesized ts)"
        by simp
      from r0 sl Inr p obtain w5 where wg: "wait_group E fl wg (emit Notify w4) = Some w5"
        by (cases "wait_group E fl wg (emit Notify w4)") auto
      from r0 sl Inr p wg obtain w6
        where da: "deleteAllSubscriptions E (emit (Print ''cancelling'') w5) = Some w6"
        by (cases "deleteAllSubscriptions E (emit (Print ''cancelling'') w5)") auto
      from r0 sl Inr p wg da have w': "w' = emit SignalStop w6" by simp
      have sc': "subConfig_of ?cfg (synthesized t) = (DefaultConfig cfg)\<lparr>cfg_Topic := Some t\<rparr>" for t
        by (simp add: subConfig_of_def synthesized_def isEmptyConfig_def)
      have "create_calls (trace w') = create_calls (trace w4)"
        using w' deleteAll_creates[OF da] wait_group_creates[OF wg] by (simp add: emit_def)
      with c4 w3 tw sc' show ?thesis by (simp add: synthesized_def comp_def)
    qed
  qed
  from tl assms(4) sc main show ?thesis by (simp add: synthesized_def)
qed

theorem all_topics_get_default_subscriptions_witness:
  "\<exists>w'. listener_main
          (emulator (\<lambda>_. Decoded ((listener_conf [])
             \<lparr>DefaultConfig := empty_config\<lparr>AckDeadline := 20 * Second\<rparr>\<rparr>)))
          flags0 (world0 [''a'', ''b''] [])
        = Some (0, w') \<and>
        create_calls (trace w')
        = [(''a'', empty_config\<lparr>AckDeadline := 20 * Second, cfg_Topic := Some ''a''\<rparr>),
           (''b'', empty_config\<lparr>AckDeadline := 20 * Second, cfg_Topic := Some ''b''\<rparr>)]"
proof -
  let ?cfg = "(listener_conf [])\<lparr>DefaultConfig := empty_config\<lparr>AckDeadline := 20 * Second\<rparr>\<rparr>"
  let ?E = "emulator (\<lambda>_. Decoded ?cfg)"
  let ?w = "world0 [''a'', ''b''] []"
  obtain w' where run: "listener_main ?E flags0 ?w = Some (0, w')"
    by (simp add: listener_eval)
  have y: "yields (topicsNext ?E (bus ?w)) (map Item [''a'', ''b''])"
    by (simp add: yields_def emulator_def world0_def)
  have "create_calls (trace w')
        = create_calls (trace ?w)
          @ map (\<lambda>t. (t, (DefaultConfig ?cfg)\<lparr>cfg_Topic := Some t\<rparr>)) [''a'', ''b'']"
    using all_topics_get_default_subscriptions[of flags0 ?E ?cfg ?w "[''a'', ''b'']"] y run
    by (simp add: flags0_def emulator_def listener_conf_def)
  with run show ?thesis by (simp add: world0_def listener_conf_def)
qed

end
